theory Spec2Isabelle
  imports Complex_Main "HOL-Library.Word" "HOL-Library.AList"
begin

unbundle bit_operations_syntax

section \<open>Python values used by the connector notebook\<close>

text \<open>
  The notebook \<^verbatim>\<open>connector-notebook.ipynb\<close> is a linear script: utility functions
  (cell 6), a transformer (cell 11) and the push loop (cell 13). Exceptions are modelled
  as values of the type \<open>error\<close>; a computation that may raise returns \<open>error + 'a\<close>.
\<close>

datatype error =
    KeyError string
  | ValueError string
  | TypeError string
  | RuntimeError string
  | OtherError string

section \<open>The batcher: \<^verbatim>\<open>create_batches\<close>\<close>

text \<open>
  \<^verbatim>\<open>range(start, stop, step)\<close> for a step that is not zero. The zero step, which raises
  \<^verbatim>\<open>ValueError\<close>, is handled by the caller \<open>create_batches\<close>.
\<close>

function py_range :: "int \<Rightarrow> int \<Rightarrow> int \<Rightarrow> int list" where
  "py_range i stop step =
     (if 0 < step \<and> i < stop then i # py_range (i + step) stop step
      else if step < 0 \<and> stop < i then i # py_range (i + step) stop step
      else [])"
  by pat_completeness auto
termination
  by (relation "measure (\<lambda>(i, stop, step). nat (if 0 < step then stop - i else i - stop))") auto

declare py_range.simps [simp del]

text \<open>
  The slice \<^verbatim>\<open>lst[lo:hi]\<close>: a negative bound counts from the end, and both bounds are
  clamped to \<open>0 .. len(lst)\<close>.
\<close>

definition slice_bound :: "nat \<Rightarrow> int \<Rightarrow> nat" where
  "slice_bound n k = (if k < 0 then nat (max 0 (k + int n)) else min n (nat k))"

definition py_slice :: "'a list \<Rightarrow> int \<Rightarrow> int \<Rightarrow> 'a list" where
  "py_slice lst lo hi =
     (let l = slice_bound (length lst) lo;
          h = slice_bound (length lst) hi
      in take (h - l) (drop l lst))"

text \<open>
  \<^verbatim>\<open>
  def create_batches(lst, batch_size):
      for i in range(0, len(lst), batch_size):
          yield lst[i:i + batch_size]
  \<close>
  The generator is consumed at once by \<^verbatim>\<open>list(...)\<close> in the push cell, so the model
  returns the list of batches. \<^verbatim>\<open>range\<close> raises \<^verbatim>\<open>ValueError\<close> when the step is zero.
\<close>

definition create_batches :: "'a list \<Rightarrow> int \<Rightarrow> error + 'a list list" where
  "create_batches lst batch_size =
     (if batch_size = 0 then Inl (ValueError ''range() arg 3 must not be zero'')
      else Inr (map (\<lambda>i. py_slice lst i (i + batch_size))
                    (py_range 0 (int (length lst)) batch_size)))"


section \<open>Base64: \<^verbatim>\<open>convert_raw_binary_to_base64_string\<close>\<close>

type_synonym byte = "8 word"

text \<open>
  \<^verbatim>\<open>base64.b64encode\<close> and \<^verbatim>\<open>base64.b64decode\<close> belong to Python's standard library, not to
  the notebook. They are modelled after RFC 4648, section 4, which the library implements:
  the standard alphabet, three bytes to four characters, \<^verbatim>\<open>=\<close> padding.
\<close>

definition b64_table :: string where
  "b64_table = ''ABCDEFGHIJKLMNOPQRSTUVWXYZabcdefghijklmnopqrstuvwxyz0123456789+/''"

definition b64_pad :: char where
  "b64_pad = CHR ''=''"

text \<open>The ASCII byte of a character, and the character of an ASCII byte.\<close>

definition byte_of_char :: "char \<Rightarrow> byte" where
  "byte_of_char c = of_nat (of_char c)"

definition char_of_byte :: "byte \<Rightarrow> char" where
  "char_of_byte b = char_of (unat b)"

text \<open>The output byte for a six-bit group; the mask is the library's \<^verbatim>\<open>& 0x3f\<close>.\<close>

definition b64_char :: "byte \<Rightarrow> byte" where
  "b64_char s = byte_of_char (b64_table ! unat (s AND 63))"

fun b64encode :: "byte list \<Rightarrow> byte list" where
  "b64encode [] = []"
| "b64encode [a] =
     [b64_char (drop_bit 2 a), b64_char (push_bit 4 (a AND 3)),
      byte_of_char b64_pad, byte_of_char b64_pad]"
| "b64encode [a, b] =
     [b64_char (drop_bit 2 a), b64_char (push_bit 4 (a AND 3) OR drop_bit 4 b),
      b64_char (push_bit 2 (b AND 15)), byte_of_char b64_pad]"
| "b64encode (a # b # c # rest) =
     [b64_char (drop_bit 2 a), b64_char (push_bit 4 (a AND 3) OR drop_bit 4 b),
      b64_char (push_bit 2 (b AND 15) OR drop_bit 6 c), b64_char (c AND 63)]
     @ b64encode rest"

text \<open>
  \<^verbatim>\<open>bytes.decode('utf-8')\<close> on ASCII bytes: each byte below 128 is the character with that
  code. The encoder produces no other byte (lemma \<open>b64encode_ascii\<close> below), so the
  multi-byte sequences of UTF-8 are not modelled.
\<close>

definition decode_utf8 :: "byte list \<Rightarrow> string" where
  "decode_utf8 bs = map char_of_byte bs"

text \<open>
  \<^verbatim>\<open>
  def convert_raw_binary_to_base64_string(raw_binary):
      return base64.b64encode(raw_binary).decode('utf-8')
  \<close>
\<close>

definition convert_raw_binary_to_base64_string :: "byte list \<Rightarrow> string" where
  "convert_raw_binary_to_base64_string raw_binary = decode_utf8 (b64encode raw_binary)"

text \<open>The decoder of RFC 4648: the position of a character in the alphabet.\<close>

fun index_of :: "'a \<Rightarrow> 'a list \<Rightarrow> nat option" where
  "index_of x [] = None"
| "index_of x (y # ys) = (if x = y then Some 0 else map_option Suc (index_of x ys))"

definition b64_index :: "char \<Rightarrow> byte option" where
  "b64_index c = map_option of_nat (index_of c b64_table)"

text \<open>
  Four characters give three bytes; a final group ends in one or two \<^verbatim>\<open>=\<close> and gives two
  bytes or one. Anything else is rejected (\<^verbatim>\<open>binascii.Error\<close>, a \<^verbatim>\<open>ValueError\<close>).
\<close>

fun b64decode :: "string \<Rightarrow> error + byte list" where
  "b64decode [] = Inr []"
| "b64decode (c0 # c1 # c2 # c3 # rest) =
     (case (b64_index c0, b64_index c1) of
        (Some s0, Some s1) \<Rightarrow>
          if c2 = b64_pad \<and> c3 = b64_pad \<and> rest = [] then
            Inr [push_bit 2 s0 OR drop_bit 4 s1]
          else
            (case b64_index c2 of
               Some s2 \<Rightarrow>
                 if c3 = b64_pad \<and> rest = [] then
                   Inr [push_bit 2 s0 OR drop_bit 4 s1, push_bit 4 s1 OR drop_bit 2 s2]
                 else
                   (case b64_index c3 of
                      Some s3 \<Rightarrow>
                        (case b64decode rest of
                           Inr bs \<Rightarrow>
                             Inr ((push_bit 2 s0 OR drop_bit 4 s1) #
                                  (push_bit 4 s1 OR drop_bit 2 s2) #
                                  (push_bit 6 s2 OR s3) # bs)
                         | Inl e \<Rightarrow> Inl e)
                    | None \<Rightarrow> Inl (ValueError ''Invalid base64-encoded string''))
             | None \<Rightarrow> Inl (ValueError ''Invalid base64-encoded string''))
      | _ \<Rightarrow> Inl (ValueError ''Invalid base64-encoded string''))"
| "b64decode _ = Inl (ValueError ''Incorrect padding'')"

section \<open>Timestamps: \<^verbatim>\<open>convert_timestamp_to_epoch_seconds\<close>\<close>

text \<open>The fields of a \<^verbatim>\<open>datetime.datetime\<close> object.\<close>

record datetime =
  year :: int
  month :: int
  day :: int
  hour :: int
  minute :: int
  second :: int
  microsecond :: int

text \<open>\<^verbatim>\<open>int(x)\<close> for a float \<open>x\<close>: truncation towards zero.\<close>

definition py_int :: "real \<Rightarrow> int" where
  "py_int x = (if 0 \<le> x then \<lfloor>x\<rfloor> else \<lceil>x\<rceil>)"

section \<open>The environment of a run\<close>

text \<open>A JSON value, as \<^verbatim>\<open>requests.post(..., json=...)\<close> serialises it.\<close>

datatype json =
    JBool bool
  | JInt int
  | JStr string
  | JList "json list"
  | JDict "(string \<times> json) list"

text \<open>
  A Python \<^verbatim>\<open>dict\<close> with string keys, in insertion order. \<^verbatim>\<open>d[k] = v\<close> replaces the value
  in place or appends the key (\<open>AList.update\<close>); \<^verbatim>\<open>d.pop(k)\<close> raises \<^verbatim>\<open>KeyError\<close> when the
  key is missing.
\<close>

type_synonym dict = "(string \<times> json) list"

definition dict_get :: "dict \<Rightarrow> string \<Rightarrow> error + json" where
  "dict_get d k = (case map_of d k of None \<Rightarrow> Inl (KeyError k) | Some v \<Rightarrow> Inr v)"

definition dict_set :: "string \<Rightarrow> json \<Rightarrow> dict \<Rightarrow> dict" where
  "dict_set k v d = AList.update k v d"

definition dict_pop :: "string \<Rightarrow> dict \<Rightarrow> error + dict" where
  "dict_pop k d = (case map_of d k of None \<Rightarrow> Inl (KeyError k) | Some v \<Rightarrow> Inr (AList.delete k d))"

record request =
  req_url :: string
  req_headers :: "(string \<times> string) list"
  req_json :: dict

record response =
  status_code :: int
  response_text :: string

text \<open>
  What the script does not contain is a parameter of the model:
  \<^item> \<open>strptime\<close> and \<open>timestamp\<close> are \<^verbatim>\<open>datetime.datetime.strptime\<close> and
    \<^verbatim>\<open>datetime.timestamp\<close> (the latter depends on the local time zone of the machine);
    both may raise;
  \<^item> \<open>uuid4 k\<close> is the string of the \<open>k\<close>-th call of \<^verbatim>\<open>uuid.uuid4()\<close> in the run;
  \<^item> \<open>remote\<close> is the indexing endpoint behind \<^verbatim>\<open>requests.post\<close>: given the requests
    sent before and the current one, it answers with a response or the call raises
    (a transport failure).
\<close>

record world =
  strptime :: "string \<Rightarrow> string \<Rightarrow> error + datetime"
  timestamp :: "datetime \<Rightarrow> error + real"
  uuid4 :: "nat \<Rightarrow> string"
  remote :: "request list \<Rightarrow> request \<Rightarrow> error + response"

text \<open>
  The globals of the notebook (cells 2, 4 and 13). \<^verbatim>\<open>glean_api_base\<close> and
  \<^verbatim>\<open>glean_headers\<close> are computed from the two environment variables.
\<close>

record config =
  datasource_name :: string
  object_type :: string
  bulk_index_flag :: bool
  batch_size :: int
  GLEAN_API_KEY :: string
  GLEAN_PROJECT_ID :: string

definition glean_api_base :: "config \<Rightarrow> string" where
  "glean_api_base cfg = ''https://'' @ GLEAN_PROJECT_ID cfg @ ''-be.glean.com/api/index/v1''"

definition glean_headers :: "config \<Rightarrow> (string \<times> string) list" where
  "glean_headers cfg =
     [(''Authorization'', ''Bearer '' @ GLEAN_API_KEY cfg),
      (''Content-Type'', ''application/json'')]"

text \<open>
  \<^verbatim>\<open>
  def convert_timestamp_to_epoch_seconds(datetime_str:str) -> int :
      datetime_obj = datetime.datetime.strptime(datetime_str, '%Y-%m-%dT%H:%M:%SZ')
      return int(datetime_obj.timestamp())
  \<close>
\<close>

definition convert_timestamp_to_epoch_seconds :: "world \<Rightarrow> string \<Rightarrow> error + int" where
  "convert_timestamp_to_epoch_seconds w datetime_str =
     (case strptime w datetime_str ''%Y-%m-%dT%H:%M:%SZ'' of
        Inl e \<Rightarrow> Inl e
      | Inr datetime_obj \<Rightarrow>
          (case timestamp w datetime_obj of
             Inl e \<Rightarrow> Inl e
           | Inr t \<Rightarrow> Inr (py_int t)))"

section \<open>The transformer: \<^verbatim>\<open>transform_document\<close>\<close>

text \<open>
  A pulled document is a \<^verbatim>\<open>dict\<close> with the eight keys of the pull cell: \<^verbatim>\<open>binary_content\<close>
  holds \<^verbatim>\<open>bytes\<close>, the others hold \<^verbatim>\<open>str\<close>. A field is \<open>None\<close> when the key is missing
  from the \<^verbatim>\<open>dict\<close>, so that \<^verbatim>\<open>document[key]\<close> raises \<^verbatim>\<open>KeyError\<close>. The key \<^verbatim>\<open>id\<close> is the
  field \<open>doc_id\<close>.
\<close>

record raw_document =
  binary_content :: "byte list option"
  url :: "string option"
  filename :: "string option"
  author :: "string option"
  authorEmail :: "string option"
  title :: "string option"
  date_created :: "string option"
  doc_id :: "string option"

text \<open>\<^verbatim>\<open>document[key]\<close> for a field of the pulled document.\<close>

definition subscript :: "string \<Rightarrow> 'a option \<Rightarrow> error + 'a" where
  "subscript key field = (case field of None \<Rightarrow> Inl (KeyError key) | Some v \<Rightarrow> Inr v)"

text \<open>
  \<^verbatim>\<open>
  def transform_document(document):
      return {
          'datasource': datasource_name,
          'id': document['id'],
          'objectType': object_type,
          'viewURL': document['url'],
          'permissions': {'allowAnonymousAccess': True},
          'title': document['title'],
          'body': {
              'mimeType': 'application/pdf',
              'binaryContent': convert_raw_binary_to_base64_string(document['binary_content'])
          },
          # Optional - Comment out if not available
          'author': {'email': document['authorEmail'], 'name': document['author']},
          'createdAt': convert_timestamp_to_epoch_seconds(document['date_created'])
      }
  \<close>
  The values of a \<^verbatim>\<open>dict\<close> display are evaluated from top to bottom, so the first
  expression that raises decides the exception.
\<close>

definition transform_document :: "world \<Rightarrow> config \<Rightarrow> raw_document \<Rightarrow> error + dict" where
  "transform_document w cfg document =
     (case subscript ''id'' (doc_id document) of Inl e \<Rightarrow> Inl e | Inr v_id \<Rightarrow>
      case subscript ''url'' (url document) of Inl e \<Rightarrow> Inl e | Inr v_url \<Rightarrow>
      case subscript ''title'' (title document) of Inl e \<Rightarrow> Inl e | Inr v_title \<Rightarrow>
      case subscript ''binary_content'' (binary_content document) of Inl e \<Rightarrow> Inl e | Inr v_binary \<Rightarrow>
      case subscript ''authorEmail'' (authorEmail document) of Inl e \<Rightarrow> Inl e | Inr v_email \<Rightarrow>
      case subscript ''author'' (author document) of Inl e \<Rightarrow> Inl e | Inr v_author \<Rightarrow>
      case subscript ''date_created'' (date_created document) of Inl e \<Rightarrow> Inl e | Inr v_date \<Rightarrow>
      case convert_timestamp_to_epoch_seconds w v_date of Inl e \<Rightarrow> Inl e | Inr v_created \<Rightarrow>
        Inr [(''datasource'', JStr (datasource_name cfg)),
             (''id'', JStr v_id),
             (''objectType'', JStr (object_type cfg)),
             (''viewURL'', JStr v_url),
             (''permissions'', JDict [(''allowAnonymousAccess'', JBool True)]),
             (''title'', JStr v_title),
             (''body'', JDict [(''mimeType'', JStr ''application/pdf''),
                               (''binaryContent'', JStr (convert_raw_binary_to_base64_string v_binary))]),
             (''author'', JDict [(''email'', JStr v_email), (''name'', JStr v_author)]),
             (''createdAt'', JInt v_created)])"

text \<open>
  \<^verbatim>\<open>transformed_documents = [transform_document(document) for document in documents]\<close>:
  the comprehension stops at the first document that raises.
\<close>

fun transform_documents :: "world \<Rightarrow> config \<Rightarrow> raw_document list \<Rightarrow> error + dict list" where
  "transform_documents w cfg [] = Inr []"
| "transform_documents w cfg (document # documents) =
     (case transform_document w cfg document of
        Inl e \<Rightarrow> Inl e
      | Inr d \<Rightarrow>
          (case transform_documents w cfg documents of
             Inl e \<Rightarrow> Inl e
           | Inr ds \<Rightarrow> Inr (d # ds)))"

section \<open>The push cell\<close>

text \<open>
  A log record keeps the level and the pieces of the f-string that is logged: the literal
  text and the interpolated values, not rendered.
\<close>

datatype level = INFO | ERROR

datatype fpart = Lit string | IntVal int | JsonVal json

text \<open>
  The state of a run: how many times \<^verbatim>\<open>uuid.uuid4()\<close> was called, every call of
  \<^verbatim>\<open>requests.post\<close> in order with what it returned or raised, and the log.
\<close>

record run_state =
  uuid_calls :: nat
  exchanges :: "(request \<times> (error + response)) list"
  log :: "(level \<times> fpart list) list"

definition initial_state :: run_state where
  "initial_state = \<lparr>uuid_calls = 0, exchanges = [], log = []\<rparr>"

definition post :: "world \<Rightarrow> request \<Rightarrow> run_state \<Rightarrow> run_state \<times> (error + response)" where
  "post w req st =
     (let r = remote w (map fst (exchanges st)) req
      in (st\<lparr>exchanges := exchanges st @ [(req, r)]\<rparr>, r))"

definition logging :: "level \<Rightarrow> fpart list \<Rightarrow> run_state \<Rightarrow> run_state" where
  "logging lvl msg st = st\<lparr>log := log st @ [(lvl, msg)]\<rparr>"

text \<open>
  The bulk loop, \<^verbatim>\<open>for idx, batch in enumerate(batches)\<close>, as a recursion on the batches
  that remain; \<open>data\<close> is the \<^verbatim>\<open>dict\<close> the loop mutates and sends.
  \<^verbatim>\<open>
      data['documents'] = batch
      data['isLastPage'] = idx == n - 1
      response = requests.post(endpoint, headers=glean_headers, json=data)
      if response.status_code == 200:
          logging.info(f'Batch {idx + 1}/{n} uploaded. Status code: {response.status_code}')
      else:
          logging.error(f'Batch {idx + 1}/{n} failed to upload. Status code: {response.status_code}')
          logging.error(response.text)
          raise RuntimeError('Failed to upload batch')
      if idx == 0:
          data["isFirstPage"] = False
          data.pop('forceRestartUpload')
  \<close>
\<close>

fun bulk_loop ::
  "world \<Rightarrow> config \<Rightarrow> int \<Rightarrow> nat \<Rightarrow> dict list list \<Rightarrow> dict \<Rightarrow> run_state \<Rightarrow> run_state \<times> (error + unit)"
where
  "bulk_loop w cfg n idx [] data st = (st, Inr ())"
| "bulk_loop w cfg n idx (batch # batches) data st =
     (let data1 = dict_set ''documents'' (JList (map JDict batch)) data;
          data2 = dict_set ''isLastPage'' (JBool (int idx = n - 1)) data1;
          (st1, r) = post w \<lparr>req_url = glean_api_base cfg @ ''/bulkindexdocuments'',
                              req_headers = glean_headers cfg, req_json = data2\<rparr> st
      in case r of
           Inl e \<Rightarrow> (st1, Inl e)
         | Inr response \<Rightarrow>
             if status_code response = 200 then
               (let st2 = logging INFO
                            [Lit ''Batch '', IntVal (int idx + 1), Lit ''/'', IntVal n,
                             Lit '' uploaded. Status code: '', IntVal (status_code response)] st1
                in if idx = 0 then
                     (case dict_pop ''forceRestartUpload''
                             (dict_set ''isFirstPage'' (JBool False) data2) of
                        Inl e \<Rightarrow> (st2, Inl e)
                      | Inr data3 \<Rightarrow> bulk_loop w cfg n (Suc idx) batches data3 st2)
                   else bulk_loop w cfg n (Suc idx) batches data2 st2)
             else
               (logging ERROR [Lit (response_text response)]
                  (logging ERROR
                     [Lit ''Batch '', IntVal (int idx + 1), Lit ''/'', IntVal n,
                      Lit '' failed to upload. Status code: '', IntVal (status_code response)] st1),
                Inl (RuntimeError ''Failed to upload batch'')))"

text \<open>
  The bulk branch of the push cell.
  \<^verbatim>\<open>
      endpoint = f'{glean_api_base}/bulkindexdocuments'
      index_id = str(uuid.uuid4())
      data = {"uploadId": index_id, "isFirstPage": True, "isLastPage": False,
              "forceRestartUpload": True, "datasource": datasource_name, "documents": []}
      batches = list(create_batches(transformed_documents, batch_size))
      n = len(batches)
      for idx, batch in enumerate(batches): ...
  \<close>
\<close>

definition bulk_upload :: "world \<Rightarrow> config \<Rightarrow> dict list \<Rightarrow> run_state \<Rightarrow> run_state \<times> (error + unit)" where
  "bulk_upload w cfg transformed_documents st =
     (let index_id = uuid4 w (uuid_calls st);
          st1 = st\<lparr>uuid_calls := Suc (uuid_calls st)\<rparr>;
          data = [(''uploadId'', JStr index_id),
                  (''isFirstPage'', JBool True),
                  (''isLastPage'', JBool False),
                  (''forceRestartUpload'', JBool True),
                  (''datasource'', JStr (datasource_name cfg)),
                  (''documents'', JList [])]
      in case create_batches transformed_documents (batch_size cfg) of
           Inl e \<Rightarrow> (st1, Inl e)
         | Inr batches \<Rightarrow> bulk_loop w cfg (int (length batches)) 0 batches data st1)"

text \<open>
  The individual branch.
  \<^verbatim>\<open>
      endpoint = f'{glean_api_base}/indexdocument'
      for document in transformed_documents:
          response = requests.post(endpoint, headers=glean_headers, json={"document":document})
          if response.status_code == 200:
              logging.info(f'Document {document["id"]} uploaded. Status code: {response.status_code}')
          else:
              logging.error(f'Document {document["id"]} failed to upload. Status code: {response.status_code}')
              logging.error(response.text)
              raise RuntimeError('Failed to upload document')
  \<close>
  Both f-strings evaluate \<^verbatim>\<open>document["id"]\<close> first, which raises \<^verbatim>\<open>KeyError\<close> on a
  document without that key.
\<close>

fun individual_upload :: "world \<Rightarrow> config \<Rightarrow> dict list \<Rightarrow> run_state \<Rightarrow> run_state \<times> (error + unit)" where
  "individual_upload w cfg [] st = (st, Inr ())"
| "individual_upload w cfg (document # documents) st =
     (let (st1, r) = post w \<lparr>req_url = glean_api_base cfg @ ''/indexdocument'',
                              req_headers = glean_headers cfg,
                              req_json = [(''document'', JDict document)]\<rparr> st
      in case r of
           Inl e \<Rightarrow> (st1, Inl e)
         | Inr response \<Rightarrow>
             (case dict_get document ''id'' of
                Inl e \<Rightarrow> (st1, Inl e)
              | Inr v_id \<Rightarrow>
                  if status_code response = 200 then
                    individual_upload w cfg documents
                      (logging INFO
                         [Lit ''Document '', JsonVal v_id,
                          Lit '' uploaded. Status code: '', IntVal (status_code response)] st1)
                  else
                    (logging ERROR [Lit (response_text response)]
                       (logging ERROR
                          [Lit ''Document '', JsonVal v_id,
                           Lit '' failed to upload. Status code: '',
                           IntVal (status_code response)] st1),
                     Inl (RuntimeError ''Failed to upload document''))))"

text \<open>The push cell: \<^verbatim>\<open>if bulk_index_flag: ... else: ...\<close>.\<close>

definition push_documents :: "world \<Rightarrow> config \<Rightarrow> dict list \<Rightarrow> run_state \<Rightarrow> run_state \<times> (error + unit)" where
  "push_documents w cfg transformed_documents st =
     (if bulk_index_flag cfg then bulk_upload w cfg transformed_documents st
      else individual_upload w cfg transformed_documents st)"

text \<open>
  The transform cell followed by the push cell. An exception in the transform cell ends
  the run before the push cell; otherwise the cell logs
  \<^verbatim>\<open>f"Transformed {len(transformed_documents)} documents for indexing."\<close>.
\<close>

definition run_notebook :: "world \<Rightarrow> config \<Rightarrow> raw_document list \<Rightarrow> run_state \<times> (error + unit)" where
  "run_notebook w cfg documents =
     (case transform_documents w cfg documents of
        Inl e \<Rightarrow> (initial_state, Inl e)
      | Inr transformed_documents \<Rightarrow>
          push_documents w cfg transformed_documents
            (logging INFO [Lit ''Transformed '', IntVal (int (length transformed_documents)),
                           Lit '' documents for indexing.''] initial_state))"

section \<open>Notions used to state the properties\<close>

text \<open>The 2xx class of status codes, and the single code the script accepts.\<close>

definition is_2xx :: "int \<Rightarrow> bool" where
  "is_2xx s = (200 \<le> s \<and> s \<le> 299)"

text \<open>The status code of an exchange, when the call returned a response.\<close>

definition status_of :: "request \<times> (error + response) \<Rightarrow> int option" where
  "status_of x = (case snd x of Inl e \<Rightarrow> None | Inr r \<Rightarrow> Some (status_code r))"

text \<open>The body sent with the \<open>i\<close>-th request of a run, and one of its keys.\<close>

definition payload :: "run_state \<Rightarrow> nat \<Rightarrow> dict" where
  "payload st i = req_json (fst (exchanges st ! i))"

definition field :: "dict \<Rightarrow> string \<Rightarrow> json option" where
  "field d k = map_of d k"

text \<open>
  The \<^verbatim>\<open>dict\<close> \<open>data\<close> of the bulk loop has one of two shapes: with \<^verbatim>\<open>forceRestartUpload\<close>
  before the first page is accepted, without it afterwards. \<open>page_request\<close> is the request
  the loop builds for page \<open>i\<close>, \<open>document_request\<close> the request of the individual branch.
\<close>

definition first_data :: "string \<Rightarrow> string \<Rightarrow> json \<Rightarrow> json \<Rightarrow> dict" where
  "first_data uid ds l d =
     [(''uploadId'', JStr uid), (''isFirstPage'', JBool True), (''isLastPage'', l),
      (''forceRestartUpload'', JBool True), (''datasource'', JStr ds), (''documents'', d)]"

definition later_data :: "string \<Rightarrow> string \<Rightarrow> json \<Rightarrow> json \<Rightarrow> dict" where
  "later_data uid ds l d =
     [(''uploadId'', JStr uid), (''isFirstPage'', JBool False), (''isLastPage'', l),
      (''datasource'', JStr ds), (''documents'', d)]"

definition data_at :: "string \<Rightarrow> string \<Rightarrow> nat \<Rightarrow> json \<Rightarrow> json \<Rightarrow> dict" where
  "data_at uid ds idx l d = (if idx = 0 then first_data uid ds l d else later_data uid ds l d)"

definition page_request :: "config \<Rightarrow> string \<Rightarrow> int \<Rightarrow> nat \<Rightarrow> dict list \<Rightarrow> request" where
  "page_request cfg uid n i batch =
     \<lparr>req_url = glean_api_base cfg @ ''/bulkindexdocuments'', req_headers = glean_headers cfg,
      req_json = data_at uid (datasource_name cfg) i (JBool (int i = n - 1)) (JList (map JDict batch))\<rparr>"

definition document_request :: "config \<Rightarrow> dict \<Rightarrow> request" where
  "document_request cfg document =
     \<lparr>req_url = glean_api_base cfg @ ''/indexdocument'', req_headers = glean_headers cfg,
      req_json = [(''document'', JDict document)]\<rparr>"

text \<open>
  The shape of the requests of one run, shared by both branches: the requests are sent
  in order, a call that raises or is answered with another status than 200 is the last one
  and decides the exception, and a call answered with 200 is followed by the next request,
  or by the normal end of the loop.
\<close>

definition trace_inv ::
  "(nat \<Rightarrow> request) \<Rightarrow> nat \<Rightarrow> string \<Rightarrow> (request \<times> (error + response)) list \<Rightarrow> error + unit \<Rightarrow> bool"
where
  "trace_inv reqs m msg new res \<longleftrightarrow>
     length new \<le> m \<and>
     (\<forall>k<length new. fst (new ! k) = reqs k) \<and>
     (\<forall>k<length new. status_of (new ! k) \<noteq> Some 200 \<longrightarrow>
        length new = Suc k \<and>
        res = (case snd (new ! k) of Inl e \<Rightarrow> Inl e | Inr r \<Rightarrow> Inl (RuntimeError msg))) \<and>
     (\<forall>k<length new. status_of (new ! k) = Some 200 \<longrightarrow>
        (if Suc k < m then Suc k < length new else res = Inr ())) \<and>
     (if m = 0 then res = Inr () else new \<noteq> [])"


section \<open>Example inputs\<close>

text \<open>
  A configuration as in cell 2 with a small batch size, and an environment whose endpoint
  answers the \<open>k\<close>-th request of the run with the \<open>k\<close>-th status code of a script
  (200 once the script is used up). Its \<open>strptime\<close> accepts the date of the sample
  documents only.
\<close>

definition example_config :: config where
  "example_config =
     \<lparr>datasource_name = ''mydocumentportal'', object_type = ''policy'',
      bulk_index_flag = True, batch_size = 2,
      GLEAN_API_KEY = ''secret'', GLEAN_PROJECT_ID = ''acme''\<rparr>"

definition scripted_world :: "int list \<Rightarrow> world" where
  "scripted_world script =
     \<lparr>strptime = (\<lambda>s f. if s = ''2024-12-15T03:05:58Z'' \<and> f = ''%Y-%m-%dT%H:%M:%SZ''
                         then Inr \<lparr>year = 2024, month = 12, day = 15, hour = 3, minute = 5,
                                   second = 58, microsecond = 0\<rparr>
                         else Inl (ValueError ''time data does not match format'')),
      timestamp = (\<lambda>d. Inr 1734231958),
      uuid4 = (\<lambda>k. ''upload-'' @ replicate k (CHR ''x'')),
      remote = (\<lambda>sent req.
                  Inr \<lparr>status_code = (if length sent < length script then script ! length sent else 200),
                       response_text = []\<rparr>)\<rparr>"

definition example_documents :: "dict list" where
  "example_documents =
     [[(''id'', JStr ''a.pdf'')], [(''id'', JStr ''b.pdf'')], [(''id'', JStr ''c.pdf'')]]"

definition example_raw_document :: raw_document where
  "example_raw_document =
     \<lparr>binary_content = Some [0x25, 0x50, 0x44, 0x46],
      url = Some ''https://mywebsite.com/files/a.pdf'',
      filename = Some ''a.pdf'',
      author = Some ''John Doe'',
      authorEmail = Some ''john.doe@acme.com'',
      title = Some ''Sample Document'',
      date_created = Some ''2024-12-15T03:05:58Z'',
      doc_id = Some ''a.pdf''\<rparr>"

section \<open>Lemmas on the batcher\<close>

lemma ceil_div_eq:
  assumes "0 < b"
  shows "(n + b - 1) div b = (if n mod b = 0 then n div b else Suc (n div b))"
proof (cases "n mod b = 0")
  case True
  then have n: "n = b * (n div b)" by (metis mult_div_mod_eq add.right_neutral)
  have "(n + b - 1) div b = n div b"
  proof (rule div_nat_eqI)
    show "b * (n div b) \<le> n + b - 1" using n assms by linarith
    show "n + b - 1 < b * Suc (n div b)" using n assms by simp
  qed
  then show ?thesis using True by simp
next
  case False
  have n: "n = b * (n div b) + n mod b" by simp
  have lt: "n mod b < b" using assms by simp
  have "(n + b - 1) div b = Suc (n div b)"
  proof (rule div_nat_eqI)
    have "b * Suc (n div b) = b * (n div b) + b" by simp
    also have "\<dots> \<le> b * (n div b) + n mod b + b - 1" using False by linarith
    also have "\<dots> = n + b - 1" by simp
    finally show "b * Suc (n div b) \<le> n + b - 1" .
    have "n + b - 1 < b * (n div b) + b + b" using n lt assms by linarith
    then show "n + b - 1 < b * Suc (Suc (n div b))" by simp
  qed
  then show ?thesis using False by simp
qed

lemma ceil_cover: "0 < b \<Longrightarrow> (n::nat) \<le> ((n + b - 1) div b) * b"
proof -
  assume b: "0 < b"
  define c where "c = (n + b - 1) div b"
  have c: "c = (if n mod b = 0 then n div b else Suc (n div b))"
    unfolding c_def by (rule ceil_div_eq [OF b])
  have n: "n = (n div b) * b + n mod b" by simp
  have lt: "n mod b < b" using b by simp
  have "n \<le> c * b"
  proof (cases "n mod b = 0")
    case True
    then show ?thesis using n c by simp
  next
    case False
    then have "c * b = (n div b) * b + b" using c by simp
    then show ?thesis using n lt by linarith
  qed
  then show ?thesis by (simp only: c_def)
qed

lemma ceil_last: "0 < b \<Longrightarrow> 0 < (n::nat) \<Longrightarrow> n - ((n + b - 1) div b - 1) * b = (if n mod b = 0 then b else n mod b)"
proof -
  assume b: "0 < b" and p: "0 < n"
  define c where "c = (n + b - 1) div b"
  have c: "c = (if n mod b = 0 then n div b else Suc (n div b))"
    unfolding c_def by (rule ceil_div_eq [OF b])
  have n: "n = (n div b) * b + n mod b" by simp
  have "n - (c - 1) * b = (if n mod b = 0 then b else n mod b)"
  proof (cases "n mod b = 0")
    case True
    then have q: "0 < n div b" using p b by (metis n add.right_neutral mult_is_0 neq0_conv)
    then obtain q' where q': "n div b = Suc q'" by (cases "n div b") auto
    have "n = Suc q' * b" using n True q' by simp
    then show ?thesis using True q' c by simp
  next
    case False
    have "n - (n div b) * b = n mod b" using n by linarith
    then show ?thesis using False c by simp
  qed
  then show ?thesis by (simp only: c_def)
qed

lemma ceil_inner: "0 < b \<Longrightarrow> Suc k < (n + b - 1) div b \<Longrightarrow> k * b + b \<le> (n::nat)"
proof -
  assume b: "0 < b" and k: "Suc k < (n + b - 1) div b"
  define c where "c = (n + b - 1) div b"
  have c: "c = (if n mod b = 0 then n div b else Suc (n div b))"
    unfolding c_def by (rule ceil_div_eq [OF b])
  have "Suc k < c" using k by (simp only: c_def)
  then have "Suc k \<le> n div b" using c by (simp split: if_splits)
  then have "Suc k * b \<le> (n div b) * b" by (rule mult_le_mono1)
  also have "\<dots> \<le> n" by simp
  finally show ?thesis by (simp add: add.commute)
qed

lemma ceil_real:
  assumes b: "0 < b"
  shows "int ((n + b - 1) div b) = \<lceil>real n / real b\<rceil>"
proof -
  define c where "c = (n + b - 1) div b"
  have c: "c = (if n mod b = 0 then n div b else Suc (n div b))"
    unfolding c_def by (rule ceil_div_eq [OF b])
  have n: "n = (n div b) * b + n mod b" by simp
  have up: "n \<le> c * b" unfolding c_def by (rule ceil_cover [OF b])
  have lo: "int c * int b - int b < int n"
  proof (cases "n mod b = 0")
    case True
    then have "int c * int b = int n" using c n by (metis add.right_neutral of_nat_mult)
    then show ?thesis using b by simp
  next
    case False
    then have "c * b = (n div b) * b + b" using c by simp
    moreover have "(n div b) * b < n" using n False by linarith
    ultimately have "c * b < n + b" by linarith
    then have "int c * int b < int n + int b" by (metis of_nat_add of_nat_less_iff of_nat_mult)
    then show ?thesis by simp
  qed
  have rb: "0 < real b" using b by simp
  have "\<lceil>real n / real b\<rceil> = int c"
  proof (rule ceiling_unique)
    have "real_of_int (int c * int b - int b) < real_of_int (int n)" using lo by (simp only: of_int_less_iff)
    then have "(real c - 1) * real b < real n" by (simp add: algebra_simps)
    then show "of_int (int c) - 1 < real n / real b" using rb by (simp add: pos_less_divide_eq)
    have "real n \<le> real (c * b)" using up by (simp only: of_nat_le_iff)
    then show "real n / real b \<le> of_int (int c)" using rb by (simp add: pos_divide_le_eq)
  qed
  then show ?thesis by (simp only: c_def)
qed

lemma ceil_step: "0 < (step::int) \<Longrightarrow> (stop - i + step - 1) div step = (stop - (i + step) + step - 1) div step + 1"
proof -
  assume s: "0 < step"
  have "stop - i + step - 1 = (stop - (i + step) + step - 1) + step" by simp
  then show ?thesis using s by (metis div_add_self2 less_irrefl)
qed

lemma ceil_nonpos: "0 < (step::int) \<Longrightarrow> \<not> i < stop \<Longrightarrow> (stop - i + step - 1) div step \<le> 0"
proof -
  assume s: "0 < step" and n: "\<not> i < stop"
  show ?thesis
  proof (cases "0 \<le> stop - i + step - 1")
    case True
    then have "(stop - i + step - 1) div step = 0" using s n by (intro div_pos_pos_trivial) auto
    then show ?thesis by simp
  next
    case False
    then have "(stop - i + step - 1) div step < 0" using s by (simp add: pos_imp_zdiv_neg_iff)
    then show ?thesis by simp
  qed
qed

lemma py_range_pos:
  assumes "0 < B"
  shows "py_range i N B = map (\<lambda>k. i + int k * B) [0..<nat ((N - i + B - 1) div B)]"
  using assms
proof (induction i N B rule: py_range.induct)
  case (1 i stop step)
  show ?case
  proof (cases "i < stop")
    case True
    have r: "py_range i stop step = i # py_range (i + step) stop step"
      using True 1(3) by (subst py_range.simps) simp
    have ih: "py_range (i + step) stop step =
        map (\<lambda>k. (i + step) + int k * step) [0..<nat ((stop - (i + step) + step - 1) div step)]"
      using 1(1) True 1(3) by simp
    have nn: "0 \<le> (stop - (i + step) + step - 1) div step"
      using True 1(3) by (simp add: pos_imp_zdiv_nonneg_iff)
    have c: "nat ((stop - i + step - 1) div step) = Suc (nat ((stop - (i + step) + step - 1) div step))"
      using ceil_step [OF 1(3), of stop i] nn by simp
    have u: "[0..<Suc m] = 0 # map Suc [0..<m]" for m
      by (simp add: upt_conv_Cons map_Suc_upt del: upt_Suc)
    show ?thesis
      unfolding r ih c u
      by (simp add: algebra_simps del: upt_Suc)
  next
    case False
    have r: "py_range i stop step = []"
      using False 1(3) by (subst py_range.simps) simp
    show ?thesis using ceil_nonpos [OF 1(3) False] by (simp add: r)
  qed
qed

lemma py_range_neg_from_0: "B < 0 \<Longrightarrow> py_range 0 (int n) B = []"
  by (subst py_range.simps) simp

lemma create_batches_pos:
  "0 < b \<Longrightarrow> create_batches xs (int b) =
      Inr (map (\<lambda>k. take b (drop (k * b) xs)) [0..<(length xs + b - 1) div b])"
proof -
  assume b: "0 < b"
  have n: "nat ((int (length xs) - 0 + int b - 1) div int b) = (length xs + b - 1) div b"
  proof -
    have "int (length xs) - 0 + int b - 1 = int (length xs + b - 1)" using b by (simp add: of_nat_diff)
    then have "(int (length xs) - 0 + int b - 1) div int b = int ((length xs + b - 1) div b)"
      by (simp only: zdiv_int)
    then show ?thesis by (simp only: nat_int)
  qed
  have s: "py_slice xs (int k * int b) (int k * int b + int b) = take b (drop (k * b) xs)" for k
  proof -
    have sb: "slice_bound n (int m) = min n m" for n m
      by (simp add: slice_bound_def)
    have 1: "slice_bound (length xs) (int k * int b) = min (length xs) (k * b)"
      using sb [of "length xs" "k * b"] by simp
    have 2: "slice_bound (length xs) (int k * int b + int b) = min (length xs) (k * b + b)"
      using sb [of "length xs" "k * b + b"] by simp
    show ?thesis
      unfolding py_slice_def Let_def 1 2
      by (cases "k * b \<le> length xs") (auto simp: min_def)
  qed
  have r: "py_range 0 (int (length xs)) (int b) = map (\<lambda>k. int k * int b) [0..<(length xs + b - 1) div b]"
    using py_range_pos [of "int b" 0 "int (length xs)"] b unfolding n by simp
  have "create_batches xs (int b) =
      Inr (map (\<lambda>i. py_slice xs i (i + int b)) (py_range 0 (int (length xs)) (int b)))"
    using b by (simp add: create_batches_def)
  also have "\<dots> = Inr (map (\<lambda>k. take b (drop (k * b) xs)) [0..<(length xs + b - 1) div b])"
    unfolding r by (simp add: s comp_def)
  finally show ?thesis .
qed

lemma concat_chunks:
  "0 < b \<Longrightarrow> concat (map (\<lambda>k. take b (drop (k * b) xs)) [0..<m]) = take (m * b) xs"
proof (induction m)
  case 0
  then show ?case by simp
next
  case (Suc m)
  have "take (m * b) xs @ take b (drop (m * b) xs) = take (m * b + b) xs"
    by (simp add: take_add)
  then show ?case using Suc by (simp add: add.commute)
qed


section \<open>Lemmas on the push loops\<close>

lemma exchanges_logging [simp]: "exchanges (logging l m st) = exchanges st"
  by (simp add: logging_def)

lemma uuid_calls_logging [simp]: "uuid_calls (logging l m st) = uuid_calls st"
  by (simp add: logging_def)

lemma data_at_send:
  "dict_set ''isLastPage'' l' (dict_set ''documents'' d' (data_at uid ds idx l d)) = data_at uid ds idx l' d'"
  by (simp add: data_at_def first_data_def later_data_def dict_set_def)

lemma data_at_next:
  "dict_pop ''forceRestartUpload'' (dict_set ''isFirstPage'' (JBool False) (data_at uid ds 0 l d))
     = Inr (data_at uid ds (Suc 0) l d)"
  by (simp add: data_at_def first_data_def later_data_def dict_set_def dict_pop_def)

lemma data_at_Suc: "0 < idx \<Longrightarrow> data_at uid ds idx l d = data_at uid ds (Suc idx) l d"
  by (simp add: data_at_def)

text \<open>One iteration of the bulk loop, by what \<^verbatim>\<open>requests.post\<close> returns.\<close>

lemma bulk_loop_raise:
  assumes "remote w (map fst (exchanges st)) (page_request cfg uid n idx batch) = Inl e"
  shows "bulk_loop w cfg n idx (batch # batches) (data_at uid (datasource_name cfg) idx l d) st =
           (st\<lparr>exchanges := exchanges st @ [(page_request cfg uid n idx batch, Inl e)]\<rparr>, Inl e)"
  using assms by (simp add: post_def Let_def page_request_def data_at_send)

lemma bulk_loop_reject:
  assumes "remote w (map fst (exchanges st)) (page_request cfg uid n idx batch) = Inr response"
    and "status_code response \<noteq> 200"
  shows "snd (bulk_loop w cfg n idx (batch # batches) (data_at uid (datasource_name cfg) idx l d) st)
           = Inl (RuntimeError ''Failed to upload batch'')"
    and "exchanges (fst (bulk_loop w cfg n idx (batch # batches) (data_at uid (datasource_name cfg) idx l d) st))
           = exchanges st @ [(page_request cfg uid n idx batch, Inr response)]"
    and "uuid_calls (fst (bulk_loop w cfg n idx (batch # batches) (data_at uid (datasource_name cfg) idx l d) st))
           = uuid_calls st"
  using assms by (simp_all add: post_def Let_def page_request_def data_at_send)

lemma bulk_loop_accept:
  assumes "remote w (map fst (exchanges st)) (page_request cfg uid n idx batch) = Inr response"
    and "status_code response = 200"
  shows "bulk_loop w cfg n idx (batch # batches) (data_at uid (datasource_name cfg) idx l d) st =
         bulk_loop w cfg n (Suc idx) batches
           (data_at uid (datasource_name cfg) (Suc idx) (JBool (int idx = n - 1)) (JList (map JDict batch)))
           (logging INFO [Lit ''Batch '', IntVal (int idx + 1), Lit ''/'', IntVal n,
                          Lit '' uploaded. Status code: '', IntVal (status_code response)]
              (st\<lparr>exchanges := exchanges st @ [(page_request cfg uid n idx batch, Inr response)]\<rparr>))"
proof (cases "idx = 0")
  case True
  then show ?thesis
    using assms by (simp add: post_def Let_def page_request_def data_at_send data_at_next)
next
  case False
  then show ?thesis
    using assms data_at_Suc [of idx uid "datasource_name cfg"]
    by (simp add: post_def Let_def page_request_def data_at_send)
qed


lemma trace_inv_Nil: "trace_inv reqs 0 msg [] (Inr ())"
  by (simp add: trace_inv_def)

lemma trace_inv_raise: "trace_inv reqs (Suc m) msg [(reqs 0, Inl e)] (Inl e)"
  by (simp add: trace_inv_def status_of_def)

lemma trace_inv_reject:
  "status_code r \<noteq> 200 \<Longrightarrow> trace_inv reqs (Suc m) msg [(reqs 0, Inr r)] (Inl (RuntimeError msg))"
  by (simp add: trace_inv_def status_of_def)

lemma trace_inv_accept:
  assumes "status_code r = 200" and "trace_inv (\<lambda>k. reqs (Suc k)) m msg new res"
  shows "trace_inv reqs (Suc m) msg ((reqs 0, Inr r) # new) res"
  unfolding trace_inv_def
proof (intro conjI allI impI)
  show "length ((reqs 0, Inr r) # new) \<le> Suc m"
    using assms(2) by (simp add: trace_inv_def)
next
  fix k assume "k < length ((reqs 0, Inr r) # new)"
  then show "fst (((reqs 0, Inr r) # new) ! k) = reqs k"
    using assms(2) by (cases k) (simp_all add: trace_inv_def)
next
  fix k assume k: "k < length ((reqs 0, Inr r) # new)"
    and s: "status_of (((reqs 0, Inr r) # new) ! k) \<noteq> Some 200"
  have "length ((reqs 0, Inr r) # new) = Suc k \<and>
        res = (case snd (((reqs 0, Inr r) # new) ! k) of Inl e \<Rightarrow> Inl e | Inr r \<Rightarrow> Inl (RuntimeError msg))"
  proof (cases k)
    case 0
    then show ?thesis using s assms(1) by (simp add: status_of_def)
  next
    case (Suc j)
    have j: "j < length new" using k Suc by simp
    have sj: "status_of (new ! j) \<noteq> Some 200" using s Suc by simp
    have "length new = Suc j \<and>
          res = (case snd (new ! j) of Inl e \<Rightarrow> Inl e | Inr r \<Rightarrow> Inl (RuntimeError msg))"
      using assms(2) j sj unfolding trace_inv_def by blast
    then show ?thesis using Suc by simp
  qed
  then show "length ((reqs 0, Inr r) # new) = Suc k"
    and "res = (case snd (((reqs 0, Inr r) # new) ! k) of Inl e \<Rightarrow> Inl e | Inr r \<Rightarrow> Inl (RuntimeError msg))"
    by blast+
next
  fix k assume k: "k < length ((reqs 0, Inr r) # new)"
    and s: "status_of (((reqs 0, Inr r) # new) ! k) = Some 200"
  show "if Suc k < Suc m then Suc k < length ((reqs 0, Inr r) # new) else res = Inr ()"
  proof (cases k)
    case 0
    show ?thesis
    proof (cases new)
      case Nil
      then show ?thesis using 0 assms(2) by (cases m) (auto simp add: trace_inv_def)
    next
      case (Cons x xs)
      then show ?thesis using 0 assms(2) by (auto simp add: trace_inv_def)
    qed
  next
    case (Suc j)
    have j: "j < length new" using k Suc by simp
    have sj: "status_of (new ! j) = Some 200" using s Suc by simp
    have "if Suc j < m then Suc j < length new else res = Inr ()"
      using assms(2) j sj unfolding trace_inv_def by blast
    then show ?thesis using Suc by (simp split: if_splits)
  qed
next
  show "if Suc m = 0 then res = Inr () else (reqs 0, Inr r) # new \<noteq> []" by simp
qed

lemma bulk_loop_trace:
  "\<exists>new. exchanges (fst (bulk_loop w cfg n idx batches (data_at uid (datasource_name cfg) idx l d) st))
            = exchanges st @ new
       \<and> uuid_calls (fst (bulk_loop w cfg n idx batches (data_at uid (datasource_name cfg) idx l d) st))
            = uuid_calls st
       \<and> trace_inv (\<lambda>k. page_request cfg uid n (idx + k) (batches ! k)) (length batches)
            ''Failed to upload batch'' new
            (snd (bulk_loop w cfg n idx batches (data_at uid (datasource_name cfg) idx l d) st))"
proof (induction batches arbitrary: idx l d st)
  case Nil
  show ?case by (simp add: trace_inv_Nil)
next
  case (Cons batch batches)
  let ?req = "page_request cfg uid n idx batch"
  let ?reqs = "\<lambda>k. page_request cfg uid n (idx + k) ((batch # batches) ! k)"
  have r0: "?reqs 0 = ?req" by simp
  show ?case
  proof (cases "remote w (map fst (exchanges st)) ?req")
    case (Inl e)
    show ?thesis
      unfolding bulk_loop_raise [OF Inl]
      using trace_inv_raise [of ?reqs "length batches" _ e] by simp
  next
    case (Inr response)
    show ?thesis
    proof (cases "status_code response = 200")
      case False
      show ?thesis
        unfolding bulk_loop_reject [OF Inr False]
        using trace_inv_reject [OF False, of ?reqs "length batches"] by simp
    next
      case True
      let ?st2 = "logging INFO [Lit ''Batch '', IntVal (int idx + 1), Lit ''/'', IntVal n,
                          Lit '' uploaded. Status code: '', IntVal (status_code response)]
              (st\<lparr>exchanges := exchanges st @ [(?req, Inr response)]\<rparr>)"
      obtain new where
        e: "exchanges (fst (bulk_loop w cfg n (Suc idx) batches
              (data_at uid (datasource_name cfg) (Suc idx) (JBool (int idx = n - 1)) (JList (map JDict batch))) ?st2))
            = exchanges ?st2 @ new"
        and u: "uuid_calls (fst (bulk_loop w cfg n (Suc idx) batches
              (data_at uid (datasource_name cfg) (Suc idx) (JBool (int idx = n - 1)) (JList (map JDict batch))) ?st2))
            = uuid_calls ?st2"
        and t: "trace_inv (\<lambda>k. page_request cfg uid n (Suc idx + k) (batches ! k)) (length batches)
            ''Failed to upload batch'' new
            (snd (bulk_loop w cfg n (Suc idx) batches
              (data_at uid (datasource_name cfg) (Suc idx) (JBool (int idx = n - 1)) (JList (map JDict batch))) ?st2))"
        using Cons.IH [of "Suc idx" "JBool (int idx = n - 1)" "JList (map JDict batch)" ?st2] by blast
      have t': "trace_inv (\<lambda>k. ?reqs (Suc k)) (length batches) ''Failed to upload batch'' new
            (snd (bulk_loop w cfg n (Suc idx) batches
              (data_at uid (datasource_name cfg) (Suc idx) (JBool (int idx = n - 1)) (JList (map JDict batch))) ?st2))"
        using t by simp
      show ?thesis
        unfolding bulk_loop_accept [OF Inr True]
        using e u trace_inv_accept [OF True t'] by simp
    qed
  qed
qed


lemma bulk_upload_trace:
  assumes "create_batches transformed_documents (batch_size cfg) = Inr batches"
  shows "\<exists>new. exchanges (fst (bulk_upload w cfg transformed_documents st)) = exchanges st @ new
       \<and> uuid_calls (fst (bulk_upload w cfg transformed_documents st)) = Suc (uuid_calls st)
       \<and> trace_inv (\<lambda>k. page_request cfg (uuid4 w (uuid_calls st)) (int (length batches)) k (batches ! k))
            (length batches) ''Failed to upload batch'' new
            (snd (bulk_upload w cfg transformed_documents st))"
proof -
  have d: "[(''uploadId'', JStr (uuid4 w (uuid_calls st))), (''isFirstPage'', JBool True),
            (''isLastPage'', JBool False), (''forceRestartUpload'', JBool True),
            (''datasource'', JStr (datasource_name cfg)), (''documents'', JList [])]
          = data_at (uuid4 w (uuid_calls st)) (datasource_name cfg) 0 (JBool False) (JList [])"
    by (simp add: data_at_def first_data_def)
  show ?thesis
    using bulk_loop_trace [of w cfg "int (length batches)" 0 batches "uuid4 w (uuid_calls st)"
        "JBool False" "JList []" "st\<lparr>uuid_calls := Suc (uuid_calls st)\<rparr>"]
    unfolding bulk_upload_def Let_def assms d by simp
qed


lemma individual_upload_trace:
  assumes "\<forall>d\<in>set documents. field d ''id'' \<noteq> None"
  shows "\<exists>new. exchanges (fst (individual_upload w cfg documents st)) = exchanges st @ new
       \<and> uuid_calls (fst (individual_upload w cfg documents st)) = uuid_calls st
       \<and> trace_inv (\<lambda>k. document_request cfg (documents ! k)) (length documents)
            ''Failed to upload document'' new (snd (individual_upload w cfg documents st))"
  using assms
proof (induction documents arbitrary: st)
  case Nil
  show ?case by (simp add: trace_inv_Nil)
next
  case (Cons document documents)
  let ?req = "document_request cfg document"
  let ?reqs = "\<lambda>k. document_request cfg ((document # documents) ! k)"
  obtain v where v: "map_of document ''id'' = Some v"
    using Cons.prems by (auto simp: field_def)
  have ids: "\<forall>d\<in>set documents. field d ''id'' \<noteq> None" using Cons.prems by simp
  show ?case
  proof (cases "remote w (map fst (exchanges st)) ?req")
    case (Inl e)
    have "individual_upload w cfg (document # documents) st =
            (st\<lparr>exchanges := exchanges st @ [(?req, Inl e)]\<rparr>, Inl e)"
      using Inl by (simp add: post_def Let_def document_request_def)
    then show ?thesis
      using trace_inv_raise [of ?reqs "length documents" _ e] by simp
  next
    case (Inr response)
    show ?thesis
    proof (cases "status_code response = 200")
      case False
      have "snd (individual_upload w cfg (document # documents) st) = Inl (RuntimeError ''Failed to upload document'')"
        and "exchanges (fst (individual_upload w cfg (document # documents) st)) = exchanges st @ [(?req, Inr response)]"
        and "uuid_calls (fst (individual_upload w cfg (document # documents) st)) = uuid_calls st"
        using Inr False v by (simp_all add: post_def Let_def document_request_def dict_get_def)
      then show ?thesis
        using trace_inv_reject [OF False, of ?reqs "length documents"] by simp
    next
      case True
      let ?st2 = "logging INFO [Lit ''Document '', JsonVal v,
                          Lit '' uploaded. Status code: '', IntVal (status_code response)]
              (st\<lparr>exchanges := exchanges st @ [(?req, Inr response)]\<rparr>)"
      have step: "individual_upload w cfg (document # documents) st = individual_upload w cfg documents ?st2"
        using Inr True v by (simp add: post_def Let_def document_request_def dict_get_def)
      obtain new where
        e: "exchanges (fst (individual_upload w cfg documents ?st2)) = exchanges ?st2 @ new"
        and u: "uuid_calls (fst (individual_upload w cfg documents ?st2)) = uuid_calls ?st2"
        and t: "trace_inv (\<lambda>k. document_request cfg (documents ! k)) (length documents)
            ''Failed to upload document'' new (snd (individual_upload w cfg documents ?st2))"
        using Cons.IH [OF ids, of ?st2] by blast
      have t': "trace_inv (\<lambda>k. ?reqs (Suc k)) (length documents) ''Failed to upload document'' new
            (snd (individual_upload w cfg documents ?st2))"
        using t by simp
      show ?thesis
        unfolding step
        using e u trace_inv_accept [OF True t'] by simp
    qed
  qed
qed

lemma trace_inv_200:
  assumes "trace_inv reqs m msg new res" and "k < length new" and "status_of (new ! k) = Some s"
  shows "if s = 200 then (if Suc k < m then Suc k < length new else res = Inr ())
         else length new = Suc k \<and> res = Inl (RuntimeError msg)"
proof (cases "s = 200")
  case True
  then have "status_of (new ! k) = Some 200" using assms(3) by simp
  then have "if Suc k < m then Suc k < length new else res = Inr ()"
    using assms(1,2) unfolding trace_inv_def by blast
  then show ?thesis using True by simp
next
  case False
  then have "status_of (new ! k) \<noteq> Some 200" using assms(3) by simp
  then have "length new = Suc k \<and>
        res = (case snd (new ! k) of Inl e \<Rightarrow> Inl e | Inr r \<Rightarrow> Inl (RuntimeError msg))"
    using assms(1,2) unfolding trace_inv_def by blast
  then show ?thesis using False assms(3) by (auto simp: status_of_def split: sum.splits)
qed

lemma bulk_upload_initial_trace:
  assumes "create_batches transformed_documents (batch_size cfg) = Inr batches"
  shows "trace_inv (\<lambda>k. page_request cfg (uuid4 w 0) (int (length batches)) k (batches ! k))
            (length batches) ''Failed to upload batch''
            (exchanges (fst (bulk_upload w cfg transformed_documents initial_state)))
            (snd (bulk_upload w cfg transformed_documents initial_state))"
  using bulk_upload_trace [OF assms, of w initial_state] by (auto simp: initial_state_def)

lemma individual_upload_initial_trace:
  assumes "\<forall>d\<in>set documents. field d ''id'' \<noteq> None"
  shows "trace_inv (\<lambda>k. document_request cfg (documents ! k)) (length documents)
            ''Failed to upload document''
            (exchanges (fst (individual_upload w cfg documents initial_state)))
            (snd (individual_upload w cfg documents initial_state))"
  using individual_upload_trace [OF assms, of w cfg initial_state] by (auto simp: initial_state_def)

text \<open>Evaluating a run on the example inputs.\<close>

lemmas run_eval =
  bulk_upload_def create_batches_def py_range.simps py_slice_def slice_bound_def
  example_config_def example_documents_def scripted_world_def initial_state_def
  post_def logging_def dict_set_def dict_pop_def dict_get_def Let_def
  glean_api_base_def glean_headers_def payload_def field_def status_of_def is_2xx_def

lemma create_batches_Nil:
  "create_batches [] B = (if B = 0 then Inl (ValueError ''range() arg 3 must not be zero'') else Inr [])"
  by (simp add: create_batches_def py_range.simps)

section \<open>The batcher contract\<close>

text \<open>
  C5. For every list of \<open>N\<close> items and every positive batch size \<open>B\<close>, \<open>create_batches\<close>
  returns \<open>ceil(N/B)\<close> batches whose concatenation in order is the list; every batch but
  the last has \<open>B\<close> elements, the last has \<open>N mod B\<close> elements, or \<open>B\<close> when \<open>B\<close> divides
  \<open>N\<close>; the empty list gives no batch.
\<close>

theorem create_batches_contract:
  assumes "0 < B"
  shows "\<exists>batches. create_batches lst (int B) = Inr batches
     \<and> int (length batches) = \<lceil>real (length lst) / real B\<rceil>
     \<and> concat batches = lst
     \<and> (\<forall>k. Suc k < length batches \<longrightarrow> length (batches ! k) = B)
     \<and> (batches \<noteq> [] \<longrightarrow>
          length (last batches) = (if length lst mod B = 0 then B else length lst mod B))
     \<and> (lst = [] \<longrightarrow> batches = [])"
proof -
  define c where "c = (length lst + B - 1) div B"
  define batches where "batches = map (\<lambda>k. take B (drop (k * B) lst)) [0..<c]"
  have cb: "create_batches lst (int B) = Inr batches"
    unfolding batches_def c_def by (rule create_batches_pos [OF assms])
  have len: "length batches = c" by (simp add: batches_def)
  have 1: "int (length batches) = \<lceil>real (length lst) / real B\<rceil>"
    unfolding len c_def by (rule ceil_real [OF assms])
  have "length lst \<le> c * B" unfolding c_def by (rule ceil_cover [OF assms])
  then have 2: "concat batches = lst"
    unfolding batches_def by (simp add: concat_chunks [OF assms])
  have 3: "length (batches ! k) = B" if "Suc k < length batches" for k
  proof -
    have "k * B + B \<le> length lst"
      using that unfolding len c_def by (rule ceil_inner [OF assms])
    then show ?thesis using that by (simp add: batches_def len)
  qed
  have 4: "length (last batches) = (if length lst mod B = 0 then B else length lst mod B)"
    if "batches \<noteq> []"
  proof -
    have cp: "0 < c" using that len by (cases c) auto
    have np: "0 < length lst"
    proof (rule ccontr)
      assume "\<not> 0 < length lst"
      then have "c = 0" using assms by (simp add: c_def)
      then show False using cp by simp
    qed
    have l: "last batches = take B (drop ((c - 1) * B) lst)"
      using cp by (simp add: batches_def last_map last_upt)
    have e: "length lst - (c - 1) * B = (if length lst mod B = 0 then B else length lst mod B)"
      unfolding c_def by (rule ceil_last [OF assms np])
    have "(if length lst mod B = 0 then B else length lst mod B) \<le> B"
      using assms by (simp add: less_imp_le)
    then show ?thesis unfolding l using e by (simp add: min_def)
  qed
  have 5: "batches = []" if "lst = []"
    using that assms by (simp add: batches_def c_def)
  show ?thesis using cb 1 2 3 4 5 by blast
qed

theorem create_batches_contract_witness:
  "0 < (2::nat) \<and> (\<exists>batches. create_batches ''abcde'' (int 2) = Inr batches
     \<and> concat batches = ''abcde'' \<and> length (last batches) = 1)"
proof -
  have h: "0 < (2::nat)" by simp
  have e: "create_batches ''abcde'' (int 2) = Inr [''ab'', ''cd'', ''e'']"
    by (simp add: create_batches_def py_range.simps py_slice_def slice_bound_def)
  show ?thesis
    using h create_batches_contract [OF h, of "''abcde''"] unfolding e by simp
qed

section \<open>The bulk session\<close>

text \<open>
  C8. In bulk mode an empty list of documents sends no request at all: the list of
  exchanges and the log stay empty. The run ends normally, unless the batch size is zero,
  where \<^verbatim>\<open>range\<close> raises before anything is sent.
\<close>

theorem bulk_upload_empty:
  "exchanges (fst (bulk_upload w cfg [] initial_state)) = []
   \<and> log (fst (bulk_upload w cfg [] initial_state)) = []
   \<and> snd (bulk_upload w cfg [] initial_state) =
       (if batch_size cfg = 0 then Inl (ValueError ''range() arg 3 must not be zero'') else Inr ())
   \<and> exchanges (fst (run_notebook w (cfg\<lparr>bulk_index_flag := True\<rparr>) [])) = []"
  by (simp add: bulk_upload_def create_batches_Nil initial_state_def run_notebook_def
      push_documents_def logging_def)





text \<open>
  C3. In bulk mode, if the request for page \<open>k\<close> is answered with a status outside the
  2xx class, it is the last request of the run: the requests sent are those of the pages
  \<open>0 .. k\<close>, none is sent for a later page, and the run ends with
  \<^verbatim>\<open>RuntimeError('Failed to upload batch')\<close>.
\<close>

theorem bulk_upload_abort:
  assumes "create_batches transformed_documents (batch_size cfg) = Inr batches"
    and "k < length (exchanges (fst (bulk_upload w cfg transformed_documents initial_state)))"
    and "status_of (exchanges (fst (bulk_upload w cfg transformed_documents initial_state)) ! k) = Some s"
    and "\<not> is_2xx s"
  shows "length (exchanges (fst (bulk_upload w cfg transformed_documents initial_state))) = Suc k
     \<and> map (\<lambda>x. field (req_json (fst x)) ''documents'')
            (exchanges (fst (bulk_upload w cfg transformed_documents initial_state)))
         = map (\<lambda>b. Some (JList (map JDict b))) (take (Suc k) batches)
     \<and> snd (bulk_upload w cfg transformed_documents initial_state)
         = Inl (RuntimeError ''Failed to upload batch'')"
proof -
  obtain new where
    e: "exchanges (fst (bulk_upload w cfg transformed_documents initial_state)) = new"
    and t: "trace_inv (\<lambda>k. page_request cfg (uuid4 w 0) (int (length batches)) k (batches ! k))
            (length batches) ''Failed to upload batch'' new
            (snd (bulk_upload w cfg transformed_documents initial_state))"
    using bulk_upload_trace [OF assms(1), of w initial_state] by (auto simp: initial_state_def)
  have k: "k < length new" using assms(2) e by simp
  have s: "status_of (new ! k) = Some s" using assms(3) e by simp
  have ne: "status_of (new ! k) \<noteq> Some 200"
    using s assms(4) by (auto simp: is_2xx_def)
  have ab: "length new = Suc k \<and>
        snd (bulk_upload w cfg transformed_documents initial_state)
          = (case snd (new ! k) of Inl e \<Rightarrow> Inl e | Inr r \<Rightarrow> Inl (RuntimeError ''Failed to upload batch''))"
    using t k ne unfolding trace_inv_def by blast
  have res: "snd (bulk_upload w cfg transformed_documents initial_state) = Inl (RuntimeError ''Failed to upload batch'')"
    using ab s by (auto simp: status_of_def split: sum.splits)
  have le: "length new \<le> length batches" using t unfolding trace_inv_def by blast
  have reqs: "\<forall>j<length new. fst (new ! j) = page_request cfg (uuid4 w 0) (int (length batches)) j (batches ! j)"
    using t unfolding trace_inv_def by blast
  have docs: "map (\<lambda>x. field (req_json (fst x)) ''documents'') new
         = map (\<lambda>b. Some (JList (map JDict b))) (take (Suc k) batches)"
  proof (rule nth_equalityI)
    show "length (map (\<lambda>x. field (req_json (fst x)) ''documents'') new)
            = length (map (\<lambda>b. Some (JList (map JDict b))) (take (Suc k) batches))"
      using ab le by simp
  next
    fix j assume "j < length (map (\<lambda>x. field (req_json (fst x)) ''documents'') new)"
    then have j: "j < length new" by simp
    then have "fst (new ! j) = page_request cfg (uuid4 w 0) (int (length batches)) j (batches ! j)"
      using reqs by blast
    then show "map (\<lambda>x. field (req_json (fst x)) ''documents'') new ! j
            = map (\<lambda>b. Some (JList (map JDict b))) (take (Suc k) batches) ! j"
      using j ab le
      by (simp add: page_request_def data_at_def first_data_def later_data_def field_def)
  qed
  show ?thesis unfolding e using ab res docs by simp
qed

theorem bulk_upload_abort_witness:
  "create_batches example_documents 1 = Inr [[[(''id'', JStr ''a.pdf'')]], [[(''id'', JStr ''b.pdf'')]], [[(''id'', JStr ''c.pdf'')]]]
   \<and> \<not> is_2xx 400
   \<and> length (exchanges (fst (bulk_upload (scripted_world [200, 400]) (example_config\<lparr>batch_size := 1\<rparr>)
         example_documents initial_state))) = 2
   \<and> snd (bulk_upload (scripted_world [200, 400]) (example_config\<lparr>batch_size := 1\<rparr>)
         example_documents initial_state) = Inl (RuntimeError ''Failed to upload batch'')"
proof -
  let ?cfg = "example_config\<lparr>batch_size := 1\<rparr>"
  let ?R = "bulk_upload (scripted_world [200, 400]) ?cfg example_documents initial_state"
  have c: "create_batches example_documents (batch_size ?cfg)
             = Inr [[[(''id'', JStr ''a.pdf'')]], [[(''id'', JStr ''b.pdf'')]], [[(''id'', JStr ''c.pdf'')]]]"
    by (simp add: run_eval)
  have l: "1 < length (exchanges (fst ?R))"
    by (simp add: run_eval)
  have s: "status_of (exchanges (fst ?R) ! 1) = Some 400"
    by (simp add: run_eval)
  have n: "\<not> is_2xx 400" by (simp add: is_2xx_def)
  show ?thesis
    using c n bulk_upload_abort [OF c l s n] by (simp add: example_config_def)
qed

section \<open>Accepting and rejecting a response\<close>

text \<open>
  C4, as stated, fails: both branches test \<^verbatim>\<open>response.status_code == 200\<close>, so a 201 or a
  204 is rejected although it is in the 2xx class.
\<close>

theorem accepts_2xx_counterexample:
  "is_2xx 201
   \<and> status_of (exchanges (fst (bulk_upload (scripted_world [201]) example_config example_documents initial_state)) ! 0)
       = Some 201
   \<and> length (exchanges (fst (bulk_upload (scripted_world [201]) example_config example_documents initial_state))) = 1
   \<and> snd (bulk_upload (scripted_world [201]) example_config example_documents initial_state)
       = Inl (RuntimeError ''Failed to upload batch'')
   \<and> status_of (exchanges (fst (individual_upload (scripted_world [204]) example_config example_documents initial_state)) ! 0)
       = Some 204
   \<and> snd (individual_upload (scripted_world [204]) example_config example_documents initial_state)
       = Inl (RuntimeError ''Failed to upload document'')"
  by (simp add: run_eval)

text \<open>
  C4, amended. For every upload request, of a bulk page or of a single document, the
  response is accepted exactly when its status code is 200: the driver then goes on to
  the next batch or document, or ends normally after the last one. Every other status,
  the other codes of the 2xx class included, is rejected: the request is the last one and
  the run raises \<^verbatim>\<open>RuntimeError\<close>. Acceptance depends on the status code only. (In the
  individual branch every document carries the key \<^verbatim>\<open>id\<close>, as the transformer's output
  does.)
\<close>

theorem accepted_iff_200:
  "(create_batches transformed_documents (batch_size cfg) = Inr batches
      \<and> k < length (exchanges (fst (bulk_upload w cfg transformed_documents initial_state)))
      \<and> status_of (exchanges (fst (bulk_upload w cfg transformed_documents initial_state)) ! k) = Some s
    \<longrightarrow> (if s = 200
         then (if Suc k < length batches
               then Suc k < length (exchanges (fst (bulk_upload w cfg transformed_documents initial_state)))
               else snd (bulk_upload w cfg transformed_documents initial_state) = Inr ())
         else length (exchanges (fst (bulk_upload w cfg transformed_documents initial_state))) = Suc k
              \<and> snd (bulk_upload w cfg transformed_documents initial_state)
                  = Inl (RuntimeError ''Failed to upload batch'')))
   \<and> ((\<forall>d\<in>set transformed_documents. field d ''id'' \<noteq> None)
      \<and> k < length (exchanges (fst (individual_upload w cfg transformed_documents initial_state)))
      \<and> status_of (exchanges (fst (individual_upload w cfg transformed_documents initial_state)) ! k) = Some s
    \<longrightarrow> (if s = 200
         then (if Suc k < length transformed_documents
               then Suc k < length (exchanges (fst (individual_upload w cfg transformed_documents initial_state)))
               else snd (individual_upload w cfg transformed_documents initial_state) = Inr ())
         else length (exchanges (fst (individual_upload w cfg transformed_documents initial_state))) = Suc k
              \<and> snd (individual_upload w cfg transformed_documents initial_state)
                  = Inl (RuntimeError ''Failed to upload document'')))"
proof (intro conjI impI)
  assume a: "create_batches transformed_documents (batch_size cfg) = Inr batches
      \<and> k < length (exchanges (fst (bulk_upload w cfg transformed_documents initial_state)))
      \<and> status_of (exchanges (fst (bulk_upload w cfg transformed_documents initial_state)) ! k) = Some s"
  show "if s = 200
         then (if Suc k < length batches
               then Suc k < length (exchanges (fst (bulk_upload w cfg transformed_documents initial_state)))
               else snd (bulk_upload w cfg transformed_documents initial_state) = Inr ())
         else length (exchanges (fst (bulk_upload w cfg transformed_documents initial_state))) = Suc k
              \<and> snd (bulk_upload w cfg transformed_documents initial_state)
                  = Inl (RuntimeError ''Failed to upload batch'')"
    using trace_inv_200 [OF bulk_upload_initial_trace, of transformed_documents cfg batches k w s] a
    by blast
next
  assume a: "(\<forall>d\<in>set transformed_documents. field d ''id'' \<noteq> None)
      \<and> k < length (exchanges (fst (individual_upload w cfg transformed_documents initial_state)))
      \<and> status_of (exchanges (fst (individual_upload w cfg transformed_documents initial_state)) ! k) = Some s"
  show "if s = 200
         then (if Suc k < length transformed_documents
               then Suc k < length (exchanges (fst (individual_upload w cfg transformed_documents initial_state)))
               else snd (individual_upload w cfg transformed_documents initial_state) = Inr ())
         else length (exchanges (fst (individual_upload w cfg transformed_documents initial_state))) = Suc k
              \<and> snd (individual_upload w cfg transformed_documents initial_state)
                  = Inl (RuntimeError ''Failed to upload document'')"
    using trace_inv_200 [OF individual_upload_initial_trace, of transformed_documents k w cfg s] a
    by blast
qed

theorem accepted_iff_200_witness:
  "create_batches example_documents (batch_size example_config)
      = Inr [[[(''id'', JStr ''a.pdf'')], [(''id'', JStr ''b.pdf'')]], [[(''id'', JStr ''c.pdf'')]]]
   \<and> status_of (exchanges (fst (bulk_upload (scripted_world [200, 201]) example_config example_documents initial_state)) ! 1)
       = Some 201
   \<and> length (exchanges (fst (bulk_upload (scripted_world [200, 201]) example_config example_documents initial_state))) = 2
   \<and> snd (bulk_upload (scripted_world [200, 201]) example_config example_documents initial_state)
       = Inl (RuntimeError ''Failed to upload batch'')
   \<and> status_of (exchanges (fst (individual_upload (scripted_world []) example_config example_documents initial_state)) ! 2)
       = Some 200
   \<and> snd (individual_upload (scripted_world []) example_config example_documents initial_state) = Inr ()"
proof -
  let ?B = "bulk_upload (scripted_world [200, 201]) example_config example_documents initial_state"
  let ?I = "individual_upload (scripted_world []) example_config example_documents initial_state"
  have c: "create_batches example_documents (batch_size example_config)
      = Inr [[[(''id'', JStr ''a.pdf'')], [(''id'', JStr ''b.pdf'')]], [[(''id'', JStr ''c.pdf'')]]]"
    by (simp add: run_eval)
  have kb: "1 < length (exchanges (fst ?B))" by (simp add: run_eval)
  have sb: "status_of (exchanges (fst ?B) ! 1) = Some 201" by (simp add: run_eval)
  have ids: "\<forall>d\<in>set example_documents. field d ''id'' \<noteq> None"
    by (simp add: example_documents_def field_def)
  have ki: "2 < length (exchanges (fst ?I))" by (simp add: run_eval)
  have si: "status_of (exchanges (fst ?I) ! 2) = Some 200" by (simp add: run_eval)
  have b: "length (exchanges (fst ?B)) = 2 \<and> snd ?B = Inl (RuntimeError ''Failed to upload batch'')"
    using accepted_iff_200 [of example_documents example_config
        "[[[(''id'', JStr ''a.pdf'')], [(''id'', JStr ''b.pdf'')]], [[(''id'', JStr ''c.pdf'')]]]"
        1 "scripted_world [200, 201]" 201] c kb sb
    by simp
  have i: "snd ?I = Inr ()"
    using accepted_iff_200 [of example_documents example_config _ 2 "scripted_world []" 200] ids ki si
    by (simp add: example_documents_def)
  show ?thesis using c sb b si i by simp
qed

section \<open>The individual branch\<close>

text \<open>
  C1, as stated, fails: the individual branch raises on the first response that is not a
  200, which ends the \<^verbatim>\<open>for\<close> loop. With three documents and a 500 for the second, the
  third document is never submitted.
\<close>

theorem individual_independence_counterexample:
  "length example_documents = 3
   \<and> status_of (exchanges (fst (individual_upload (scripted_world [200, 500, 200]) example_config
        example_documents initial_state)) ! 1) = Some 500
   \<and> length (exchanges (fst (individual_upload (scripted_world [200, 500, 200]) example_config
        example_documents initial_state))) = 2
   \<and> snd (individual_upload (scripted_world [200, 500, 200]) example_config example_documents initial_state)
       = Inl (RuntimeError ''Failed to upload document'')"
  by (simp add: run_eval)

text \<open>
  C1, amended. In individual mode, if the upload request for document \<open>j\<close> is answered
  with a status outside the 2xx class, the run aborts there: the requests sent are those
  of the documents \<open>0 .. j\<close>, no document after \<open>j\<close> is submitted, and the run ends with
  \<^verbatim>\<open>RuntimeError('Failed to upload document')\<close>. (Every document carries the key \<^verbatim>\<open>id\<close>.)
\<close>

theorem individual_upload_abort:
  assumes "\<forall>d\<in>set transformed_documents. field d ''id'' \<noteq> None"
    and "j < length (exchanges (fst (individual_upload w cfg transformed_documents initial_state)))"
    and "status_of (exchanges (fst (individual_upload w cfg transformed_documents initial_state)) ! j) = Some s"
    and "\<not> is_2xx s"
  shows "length (exchanges (fst (individual_upload w cfg transformed_documents initial_state))) = Suc j
     \<and> map fst (exchanges (fst (individual_upload w cfg transformed_documents initial_state)))
         = map (document_request cfg) (take (Suc j) transformed_documents)
     \<and> snd (individual_upload w cfg transformed_documents initial_state)
         = Inl (RuntimeError ''Failed to upload document'')"
proof -
  let ?new = "exchanges (fst (individual_upload w cfg transformed_documents initial_state))"
  have t: "trace_inv (\<lambda>k. document_request cfg (transformed_documents ! k)) (length transformed_documents)
            ''Failed to upload document'' ?new
            (snd (individual_upload w cfg transformed_documents initial_state))"
    by (rule individual_upload_initial_trace [OF assms(1)])
  have ne: "s \<noteq> 200" using assms(4) by (auto simp: is_2xx_def)
  have ab: "length ?new = Suc j \<and>
        snd (individual_upload w cfg transformed_documents initial_state)
          = Inl (RuntimeError ''Failed to upload document'')"
    using trace_inv_200 [OF t assms(2,3)] ne by simp
  have le: "length ?new \<le> length transformed_documents" using t unfolding trace_inv_def by blast
  have reqs: "\<forall>i<length ?new. fst (?new ! i) = document_request cfg (transformed_documents ! i)"
    using t unfolding trace_inv_def by blast
  have "map fst ?new = map (document_request cfg) (take (Suc j) transformed_documents)"
  proof (rule nth_equalityI)
    show "length (map fst ?new) = length (map (document_request cfg) (take (Suc j) transformed_documents))"
      using ab le by simp
  next
    fix i assume "i < length (map fst ?new)"
    then have i: "i < length ?new" by simp
    then show "map fst ?new ! i = map (document_request cfg) (take (Suc j) transformed_documents) ! i"
      using reqs ab le by simp
  qed
  then show ?thesis using ab by simp
qed

theorem individual_upload_abort_witness:
  "\<not> is_2xx 500
   \<and> status_of (exchanges (fst (individual_upload (scripted_world [200, 500, 200]) example_config
        example_documents initial_state)) ! 1) = Some 500
   \<and> map fst (exchanges (fst (individual_upload (scripted_world [200, 500, 200]) example_config
        example_documents initial_state)))
       = map (document_request example_config) (take (Suc 1) example_documents)"
proof -
  let ?I = "individual_upload (scripted_world [200, 500, 200]) example_config example_documents initial_state"
  have ids: "\<forall>d\<in>set example_documents. field d ''id'' \<noteq> None"
    by (simp add: example_documents_def field_def)
  have k: "1 < length (exchanges (fst ?I))" by (simp add: run_eval)
  have s: "status_of (exchanges (fst ?I) ! 1) = Some 500" by (simp add: run_eval)
  have n: "\<not> is_2xx 500" by (simp add: is_2xx_def)
  show ?thesis
    using n s individual_upload_abort [OF ids k s n] by simp
qed

section \<open>The transformer\<close>

lemma transform_document_Inr:
  assumes "doc_id d = Some i" "url d = Some u" "title d = Some t" "binary_content d = Some b"
    "authorEmail d = Some e" "author d = Some a" "date_created d = Some s"
    "convert_timestamp_to_epoch_seconds w s = Inr c"
  shows "transform_document w cfg d =
     Inr [(''datasource'', JStr (datasource_name cfg)),
          (''id'', JStr i),
          (''objectType'', JStr (object_type cfg)),
          (''viewURL'', JStr u),
          (''permissions'', JDict [(''allowAnonymousAccess'', JBool True)]),
          (''title'', JStr t),
          (''body'', JDict [(''mimeType'', JStr ''application/pdf''),
                            (''binaryContent'', JStr (convert_raw_binary_to_base64_string b))]),
          (''author'', JDict [(''email'', JStr e), (''name'', JStr a)]),
          (''createdAt'', JInt c)]"
  using assms by (simp add: transform_document_def subscript_def)

lemma transform_document_id:
  "transform_document w cfg d = Inr r \<Longrightarrow> field r ''id'' \<noteq> None"
  by (auto simp: transform_document_def subscript_def field_def split: option.splits sum.splits)

lemma transform_documents_ids:
  "transform_documents w cfg ds = Inr rs \<Longrightarrow> \<forall>r\<in>set rs. field r ''id'' \<noteq> None"
proof (induction ds arbitrary: rs)
  case Nil
  then show ?case by simp
next
  case (Cons d ds)
  then show ?case
    by (auto split: sum.splits dest: transform_document_id)
qed


text \<open>
  C7, as stated, fails: the transformer reads \<^verbatim>\<open>authorEmail\<close>, \<^verbatim>\<open>author\<close> and
  \<^verbatim>\<open>date_created\<close> with \<^verbatim>\<open>document[...]\<close>, so a document without them produces no
  record at all; \<^verbatim>\<open>KeyError\<close> is raised. (The source comment asks the developer to
  comment these entries out when the data is not available.)
\<close>

theorem transform_optional_counterexample:
  "transform_document (scripted_world []) example_config
     (example_raw_document\<lparr>author := None, authorEmail := None, date_created := None\<rparr>)
   = Inl (KeyError ''authorEmail'')"
  by (simp add: transform_document_def subscript_def example_raw_document_def)

text \<open>
  C7, amended. For every pulled document containing the required input fields
  (\<^verbatim>\<open>id\<close>, \<^verbatim>\<open>url\<close>, \<^verbatim>\<open>title\<close>, \<^verbatim>\<open>binary_content\<close>): when it also contains \<^verbatim>\<open>authorEmail\<close>,
  \<^verbatim>\<open>author\<close> and a \<^verbatim>\<open>date_created\<close> that converts to epoch seconds, the transformer
  populates every required field of the record (datasource, id equal to the document's
  id, objectType, viewURL, permissions, title, body with mimeType and base64
  binaryContent) and the keys \<^verbatim>\<open>author\<close> and \<^verbatim>\<open>createdAt\<close>; when one of \<^verbatim>\<open>authorEmail\<close>,
  \<^verbatim>\<open>author\<close>, \<^verbatim>\<open>date_created\<close> is absent, it raises \<^verbatim>\<open>KeyError\<close> for one of these keys and
  produces no record.
\<close>

theorem transform_document_fields:
  assumes "doc_id d = Some i" and "url d = Some u" and "title d = Some t"
    and "binary_content d = Some b"
  shows "(authorEmail d = Some e \<and> author d = Some a \<and> date_created d = Some s
          \<and> convert_timestamp_to_epoch_seconds w s = Inr c
        \<longrightarrow> (\<exists>r. transform_document w cfg d = Inr r
              \<and> field r ''datasource'' = Some (JStr (datasource_name cfg))
              \<and> field r ''id'' = Some (JStr i)
              \<and> field r ''objectType'' = Some (JStr (object_type cfg))
              \<and> field r ''viewURL'' = Some (JStr u)
              \<and> field r ''permissions'' = Some (JDict [(''allowAnonymousAccess'', JBool True)])
              \<and> field r ''title'' = Some (JStr t)
              \<and> field r ''body'' = Some (JDict [(''mimeType'', JStr ''application/pdf''),
                    (''binaryContent'', JStr (convert_raw_binary_to_base64_string b))])
              \<and> field r ''author'' = Some (JDict [(''email'', JStr e), (''name'', JStr a)])
              \<and> field r ''createdAt'' = Some (JInt c)))
     \<and> (authorEmail d = None \<or> author d = None \<or> date_created d = None
        \<longrightarrow> transform_document w cfg d \<in>
              {Inl (KeyError ''authorEmail''), Inl (KeyError ''author''), Inl (KeyError ''date_created'')})"
proof (intro conjI impI)
  assume "authorEmail d = Some e \<and> author d = Some a \<and> date_created d = Some s
          \<and> convert_timestamp_to_epoch_seconds w s = Inr c"
  then show "\<exists>r. transform_document w cfg d = Inr r
              \<and> field r ''datasource'' = Some (JStr (datasource_name cfg))
              \<and> field r ''id'' = Some (JStr i)
              \<and> field r ''objectType'' = Some (JStr (object_type cfg))
              \<and> field r ''viewURL'' = Some (JStr u)
              \<and> field r ''permissions'' = Some (JDict [(''allowAnonymousAccess'', JBool True)])
              \<and> field r ''title'' = Some (JStr t)
              \<and> field r ''body'' = Some (JDict [(''mimeType'', JStr ''application/pdf''),
                    (''binaryContent'', JStr (convert_raw_binary_to_base64_string b))])
              \<and> field r ''author'' = Some (JDict [(''email'', JStr e), (''name'', JStr a)])
              \<and> field r ''createdAt'' = Some (JInt c)"
    using assms by (simp add: transform_document_Inr field_def)
next
  assume "authorEmail d = None \<or> author d = None \<or> date_created d = None"
  then show "transform_document w cfg d \<in>
              {Inl (KeyError ''authorEmail''), Inl (KeyError ''author''), Inl (KeyError ''date_created'')}"
    using assms by (auto simp: transform_document_def subscript_def split: option.splits)
qed

theorem transform_document_fields_witness:
  "doc_id example_raw_document = Some ''a.pdf''
   \<and> convert_timestamp_to_epoch_seconds (scripted_world []) ''2024-12-15T03:05:58Z'' = Inr 1734231958
   \<and> (\<exists>r. transform_document (scripted_world []) example_config example_raw_document = Inr r
          \<and> field r ''id'' = Some (JStr ''a.pdf'')
          \<and> field r ''createdAt'' = Some (JInt 1734231958))
   \<and> transform_document (scripted_world []) example_config (example_raw_document\<lparr>author := None\<rparr>)
       = Inl (KeyError ''author'')"
proof -
  have c: "convert_timestamp_to_epoch_seconds (scripted_world []) ''2024-12-15T03:05:58Z'' = Inr 1734231958"
    by (simp add: convert_timestamp_to_epoch_seconds_def scripted_world_def py_int_def)
  have 1: "\<exists>r. transform_document (scripted_world []) example_config example_raw_document = Inr r
          \<and> field r ''id'' = Some (JStr ''a.pdf'')
          \<and> field r ''createdAt'' = Some (JInt 1734231958)"
    using transform_document_fields [of example_raw_document "''a.pdf''"
        "''https://mywebsite.com/files/a.pdf''" "''Sample Document''" "[0x25, 0x50, 0x44, 0x46]"
        "''john.doe@acme.com''" "''John Doe''" "''2024-12-15T03:05:58Z''" "scripted_world []" 1734231958
        example_config] c
    unfolding example_raw_document_def by simp blast
  have 2: "transform_document (scripted_world []) example_config (example_raw_document\<lparr>author := None\<rparr>)
       = Inl (KeyError ''author'')"
    by (simp add: transform_document_def subscript_def example_raw_document_def)
  show ?thesis using c 1 2 by (simp add: example_raw_document_def)
qed



section \<open>Base64 round trip\<close>

lemma char_of_byte_of_char: "char_of_byte (byte_of_char c) = c"
proof -
  have "unat (of_nat (of_char c) :: byte) = of_char c mod 256"
    by (simp add: unat_of_nat)
  then show ?thesis
    by (simp add: char_of_byte_def byte_of_char_def)
qed

lemma index_of_nth: "distinct xs \<Longrightarrow> n < length xs \<Longrightarrow> index_of (xs ! n) xs = Some n"
proof (induction xs arbitrary: n)
  case Nil
  then show ?case by simp
next
  case (Cons x xs)
  show ?case
  proof (cases n)
    case 0
    then show ?thesis by simp
  next
    case (Suc m)
    have "xs ! m \<in> set xs" using Cons.prems Suc by simp
    then have "xs ! m \<noteq> x" using Cons.prems by auto
    then show ?thesis using Cons Suc by simp
  qed
qed

lemma b64_table_length: "length b64_table = 64"
  by (simp add: b64_table_def)

lemma b64_table_distinct: "distinct b64_table"
  by (simp add: b64_table_def)

lemma b64_pad_not_in_table: "b64_pad \<notin> set b64_table"
  by (simp add: b64_table_def b64_pad_def)

lemma mask_63: "(63::byte) = mask 6" by (simp add: mask_eq_exp_minus_1)
lemma mask_3: "(3::byte) = mask 2" by (simp add: mask_eq_exp_minus_1)
lemma mask_15: "(15::byte) = mask 4" by (simp add: mask_eq_exp_minus_1)

lemma sextet_bound: "unat ((s::byte) AND 63) < 64"
proof -
  have "unat (s AND mask 6) = take_bit 6 (unat s)"
    by (simp add: unsigned_take_bit_eq flip: take_bit_eq_mask)
  also have "\<dots> < 2 ^ 6" by (rule take_bit_nat_less_exp)
  finally show ?thesis by (simp add: mask_63)
qed

lemma b64_index_char: "b64_index (char_of_byte (b64_char s)) = Some (s AND 63)"
proof -
  have "index_of (b64_table ! unat (s AND 63)) b64_table = Some (unat (s AND 63))"
    using sextet_bound [of s] by (intro index_of_nth) (simp_all add: b64_table_distinct b64_table_length)
  then show ?thesis
    by (simp add: b64_index_def b64_char_def char_of_byte_of_char)
qed

lemma b64_char_not_pad: "char_of_byte (b64_char s) \<noteq> b64_pad"
proof -
  have "b64_table ! unat (s AND 63) \<in> set b64_table"
    using sextet_bound [of s] by (simp add: b64_table_length)
  then show ?thesis
    using b64_pad_not_in_table by (auto simp: b64_char_def char_of_byte_of_char)
qed

lemma b64_char_ascii: "b64_char s < 128"
proof -
  have "\<forall>c\<in>set b64_table. byte_of_char c < 128"
    by (simp add: b64_table_def byte_of_char_def)
  moreover have "b64_table ! unat (s AND 63) \<in> set b64_table"
    using sextet_bound [of s] by (simp add: b64_table_length)
  ultimately show ?thesis by (simp add: b64_char_def)
qed

lemma b64encode_ascii: "\<forall>x\<in>set (b64encode bs). x < 128"
  by (induction bs rule: b64encode.induct)
    (simp_all add: b64_char_ascii byte_of_char_def b64_pad_def)

lemma byte_eqI:
  fixes x y :: byte
  assumes "bit x 0 = bit y 0" "bit x 1 = bit y 1" "bit x 2 = bit y 2" "bit x 3 = bit y 3"
    "bit x 4 = bit y 4" "bit x 5 = bit y 5" "bit x 6 = bit y 6" "bit x 7 = bit y 7"
  shows "x = y"
proof (rule bit_word_eqI)
  fix n assume "n < LENGTH(8)"
  then have "n < 8" by simp
  then consider "n = 0" | "n = 1" | "n = 2" | "n = 3" | "n = 4" | "n = 5" | "n = 6" | "n = 7"
    by linarith
  then show "bit x n = bit y n" using assms by cases simp_all
qed

lemma bits3_0:
  fixes a b :: byte
  shows "push_bit 2 (drop_bit 2 a AND 63) OR drop_bit 4 ((push_bit 4 (a AND 3) OR drop_bit 4 b) AND 63) = a"
  unfolding mask_63 mask_3 mask_15
  by (rule byte_eqI) (simp_all add: bit_simps)

lemma bits3_1:
  fixes a b c :: byte
  shows "push_bit 4 ((push_bit 4 (a AND 3) OR drop_bit 4 b) AND 63)
          OR drop_bit 2 ((push_bit 2 (b AND 15) OR drop_bit 6 c) AND 63) = b"
  unfolding mask_63 mask_3 mask_15
  by (rule byte_eqI) (simp_all add: bit_simps)

lemma bits3_2:
  fixes b c :: byte
  shows "push_bit 6 ((push_bit 2 (b AND 15) OR drop_bit 6 c) AND 63) OR (c AND 63 AND 63) = c"
  unfolding mask_63 mask_3 mask_15
  by (rule byte_eqI) (simp_all add: bit_simps)

lemma bits1_0:
  fixes a :: byte
  shows "push_bit 2 (drop_bit 2 a AND 63) OR drop_bit 4 (push_bit 4 (a AND 3) AND 63) = a"
  unfolding mask_63 mask_3 mask_15
  by (rule byte_eqI) (simp_all add: bit_simps)

lemma bits2_1:
  fixes a b :: byte
  shows "push_bit 4 ((push_bit 4 (a AND 3) OR drop_bit 4 b) AND 63)
          OR drop_bit 2 (push_bit 2 (b AND 15) AND 63) = b"
  unfolding mask_63 mask_3 mask_15
  by (rule byte_eqI) (simp_all add: bit_simps)

lemma b64decode_b64encode: "b64decode (decode_utf8 (b64encode bs)) = Inr bs"
proof (induction bs rule: b64encode.induct)
  case 1
  show ?case by (simp add: decode_utf8_def)
next
  case (2 a)
  have "push_bit 2 (drop_bit 2 a AND 63) OR drop_bit 4 (push_bit 4 (a AND 3) AND 63) = a"
    by (rule bits1_0)
  then show ?case by (simp add: decode_utf8_def b64_index_char b64_char_not_pad char_of_byte_of_char)
next
  case (3 a b)
  show ?case
    using bits3_0 [of a b] bits2_1 [of a b]
    by (simp add: decode_utf8_def b64_index_char b64_char_not_pad char_of_byte_of_char)
next
  case (4 a b c rest)
  show ?case
    using 4 bits3_0 [of a b] bits3_1 [of a b c] bits3_2 [of b c]
    by (simp add: decode_utf8_def b64_index_char b64_char_not_pad char_of_byte_of_char)
qed

text \<open>The test vectors of RFC 4648, section 10.\<close>

lemma b64encode_test_vectors:
  "convert_raw_binary_to_base64_string [0x66] = ''Zg==''"
  "convert_raw_binary_to_base64_string [0x66, 0x6f] = ''Zm8=''"
  "convert_raw_binary_to_base64_string [0x66, 0x6f, 0x6f] = ''Zm9v''"
  "convert_raw_binary_to_base64_string [0x66, 0x6f, 0x6f, 0x62] = ''Zm9vYg==''"
  by (simp_all add: convert_raw_binary_to_base64_string_def decode_utf8_def b64_char_def
      char_of_byte_of_char b64_table_def b64_pad_def)

text \<open>
  C9. For every byte string \<open>b\<close>, decoding the string returned by
  \<open>convert_raw_binary_to_base64_string b\<close> gives back exactly \<open>b\<close>.
\<close>

theorem base64_round_trip:
  "b64decode (convert_raw_binary_to_base64_string b) = Inr b"
  by (simp add: convert_raw_binary_to_base64_string_def b64decode_b64encode)

end
